theory Spec2Isabelle
  imports Main
begin

section \<open>Data model of package runtime, as helper.go uses it\<close>

text \<open>
  The file \<^verbatim>\<open>pkg/runtime/helper.go\<close> works on values whose types are declared in other
  files of the package. They are written down here the way helper.go uses them.

  A \<^verbatim>\<open>[]byte\<close> is a \<open>string\<close> (a list of 8-bit characters).
\<close>

type_synonym bytes = string

text \<open>\<^verbatim>\<open>unversioned.GroupVersion\<close>: only passed through to the encoder.\<close>

record GroupVersion =
  Group :: string
  Version :: string

text \<open>\<^verbatim>\<open>runtime.TypeMeta\<close>, the kind and version metadata embedded in \<^verbatim>\<open>Unknown\<close>.\<close>

record TypeMeta =
  APIVersion :: string
  Kind :: string

text \<open>
  \<^verbatim>\<open>runtime.Unknown\<close>: raw serialized bytes together with the metadata the comments of
  helper.go name (\<^verbatim>\<open>TypeMeta\<close>, \<^verbatim>\<open>ContentEncoding\<close>, \<^verbatim>\<open>ContentType\<close>).
\<close>

record Unknown =
  TypeMeta :: TypeMeta
  Raw :: bytes
  ContentEncoding :: string
  ContentType :: string

text \<open>\<^verbatim>\<open>unversioned.GroupVersionKind\<close>; its zero value has three empty strings.\<close>

record GroupVersionKind =
  Group :: string
  Version :: string
  Kind :: string

definition zero_GroupVersionKind :: GroupVersionKind where
  "zero_GroupVersionKind = \<lparr>Group = [], Version = [], Kind = []\<rparr>"

text \<open>
  \<^verbatim>\<open>runtime.Object\<close> is an interface. The type switch of \<^verbatim>\<open>DecodeList\<close> tells a
  \<^verbatim>\<open>*Unknown\<close> from every other dynamic value, so an object is either an envelope (the
  \<^verbatim>\<open>Unknown\<close> a non-nil \<^verbatim>\<open>*Unknown\<close> points to) or some other value \<open>Typed x\<close>, with
  \<open>'a\<close> the collection of all other dynamic values (the nil interface among them).
  Every position of a collection holds a value of its own: two positions sharing one
  pointer are outside this model, as is a nil \<^verbatim>\<open>*Unknown\<close>.
\<close>

datatype 'a Object = Envelope Unknown | Typed 'a

text \<open>
  Go's \<^verbatim>\<open>error\<close> values. \<open>NotRegisteredErr\<close> is the package's \<^verbatim>\<open>*notRegisteredErr\<close>,
  \<open>ErrorString\<close> is what \<^verbatim>\<open>fmt.Errorf\<close> builds, \<open>Aggregate\<close> is the list of errors that
  \<^verbatim>\<open>errors.NewAggregate\<close> wraps.
\<close>

datatype error = NotRegisteredErr string | ErrorString string | Aggregate "error list"

text \<open>
  Modelled from the spec: \<^verbatim>\<open>IsNotRegisteredError\<close> is declared in another file of the
  package. The decoder contract says that an error "distinguishes kind not registered
  with this decoder from all other failures"; the test is on the error itself, not on
  errors wrapped inside it.
\<close>

fun IsNotRegisteredError :: "error \<Rightarrow> bool" where
  "IsNotRegisteredError (NotRegisteredErr k) = True"
| "IsNotRegisteredError (ErrorString s) = False"
| "IsNotRegisteredError (Aggregate es) = False"

text \<open>
  Modelled from the spec: \<^verbatim>\<open>errors.NewAggregate\<close> lives in \<^verbatim>\<open>pkg/util/errors\<close>. "If any
  errors were recorded, return them as one aggregated error (order-preserving, one entry
  per failing position); otherwise return no error." \<open>None\<close> is Go's nil error.
\<close>

definition NewAggregate :: "error list \<Rightarrow> error option" where
  "NewAggregate errlist = (if errlist = [] then None else Some (Aggregate errlist))"

subsection \<open>The interfaces the functions are handed\<close>

text \<open>
  \<^verbatim>\<open>ObjectTyper\<close>: each method returns all of its Go results, so a failing lookup still
  carries the value it returned beside the error.
\<close>

record 'a ObjectTyper =
  ObjectKind :: "'a Object \<Rightarrow> GroupVersionKind \<times> error option"
  ObjectKinds :: "'a Object \<Rightarrow> GroupVersionKind list \<times> error option"
  Recognizes :: "GroupVersionKind \<Rightarrow> bool"
  IsUnversioned :: "'a Object \<Rightarrow> bool \<times> bool"

text \<open>
  An encoder, seen through the package function \<^verbatim>\<open>Encode(e, obj, overrides...)\<close>: the
  bytes, or the error (the bytes are not read when there is an error).
\<close>

record 'a Encoder =
  Encode :: "'a Object \<Rightarrow> GroupVersion list \<Rightarrow> error + bytes"

text \<open>
  A decoder, seen through the package functions \<^verbatim>\<open>Decode(d, data)\<close> and
  \<^verbatim>\<open>DecodeInto(d, data, into)\<close>. \<^verbatim>\<open>Decode\<close> gets the bytes only and returns an object or
  an error. \<^verbatim>\<open>DecodeInto\<close> gets the pointer to the envelope and may write through it
  whether it fails or not, so it returns its error together with the envelope as it
  left it.
\<close>

record 'a Decoder =
  Decode :: "bytes \<Rightarrow> error + 'a Object"
  DecodeInto :: "bytes \<Rightarrow> Unknown \<Rightarrow> error option \<times> Unknown"

section \<open>objectTyperToTyper\<close>

text \<open>
  \<^verbatim>\<open>reflect.TypeOf(obj)\<close> printed with \<^verbatim>\<open>%v\<close>: the name of the dynamic type. For the other
  dynamic values it is the parameter \<open>tn\<close>.
\<close>

fun TypeOf :: "('a \<Rightarrow> string) \<Rightarrow> 'a Object \<Rightarrow> string" where
  "TypeOf tn (Envelope u) = ''*runtime.Unknown''"
| "TypeOf tn (Typed x) = tn x"

text \<open>
  The result is Go's triple \<^verbatim>\<open>(*GroupVersionKind, bool, error)\<close>; \<open>None\<close> in the first
  component is the nil pointer, \<open>None\<close> in the last the nil error.
\<close>

definition objectTyperToTyper_ObjectKind ::
  "('a \<Rightarrow> string) \<Rightarrow> 'a ObjectTyper \<Rightarrow> 'a Object \<Rightarrow> GroupVersionKind option \<times> bool \<times> error option" where
  "objectTyperToTyper_ObjectKind tn typer obj =
     (case ObjectKind typer obj of
        (gvk, Some err) \<Rightarrow> (None, False, Some err)
      | (gvk, None) \<Rightarrow>
          (case IsUnversioned typer obj of
             (unversionedType, ok) \<Rightarrow>
               if \<not> ok then
                 (None, False,
                  Some (ErrorString (''typer returned a kind for '' @ TypeOf tn obj @
                    '', but then reported it was not in the scheme with IsUnversioned'')))
               else (Some gvk, unversionedType, None)))"

section \<open>EncodeList\<close>

text \<open>The composite literal \<^verbatim>\<open>Unknown{Raw: data}\<close>: every other field has its zero value.\<close>

definition Unknown_Raw :: "bytes \<Rightarrow> Unknown" where
  "Unknown_Raw data =
     \<lparr>TypeMeta = \<lparr>APIVersion = [], TypeMeta.Kind = []\<rparr>, Raw = data,
      ContentEncoding = [], ContentType = []\<rparr>"

text \<open>
  The loop of \<^verbatim>\<open>EncodeList\<close> over the positions, with the slice of errors collected so
  far. It returns the collection as the loop leaves it and the errors.
\<close>

fun EncodeList_range ::
  "'a Encoder \<Rightarrow> GroupVersion list \<Rightarrow> 'a Object list \<Rightarrow> error list \<Rightarrow> 'a Object list \<times> error list" where
  "EncodeList_range e overrides [] errs = ([], errs)"
| "EncodeList_range e overrides (obj # objects) errs =
     (case Encode e obj overrides of
        Inl err \<Rightarrow>
          (case EncodeList_range e overrides objects (errs @ [err]) of
             (objects', errs') \<Rightarrow> (obj # objects', errs'))
      | Inr data \<Rightarrow>
          (case EncodeList_range e overrides objects errs of
             (objects', errs') \<Rightarrow>
               (Envelope (Unknown_Raw data) # objects', errs')))"

text \<open>\<^verbatim>\<open>EncodeList\<close>: the collection after the call and the returned error.\<close>

definition EncodeList ::
  "'a Encoder \<Rightarrow> 'a Object list \<Rightarrow> GroupVersion list \<Rightarrow> 'a Object list \<times> error option" where
  "EncodeList e objects overrides =
     (case EncodeList_range e overrides objects [] of
        (objects', errs) \<Rightarrow> (objects', NewAggregate errs))"

section \<open>DecodeList\<close>

text \<open>
  The first loop of \<^verbatim>\<open>decodeListItem\<close>. \<open>Some r\<close>: the loop returned \<open>r\<close> from inside;
  \<open>None\<close>: it ran through all decoders.
\<close>

fun decodeListItem_full :: "Unknown \<Rightarrow> 'a Decoder list \<Rightarrow> (error + 'a Object) option" where
  "decodeListItem_full obj [] = None"
| "decodeListItem_full obj (decoder # decoders) =
     (case Decode decoder (Raw obj) of
        Inl err \<Rightarrow>
          if IsNotRegisteredError err then decodeListItem_full obj decoders
          else Some (Inl err)
      | Inr decoded \<Rightarrow> Some (Inr decoded))"

text \<open>
  The second loop of \<^verbatim>\<open>decodeListItem\<close> and the return after it: the envelope, as the
  decoders left it.
\<close>

fun decodeListItem_meta :: "Unknown \<Rightarrow> 'a Decoder list \<Rightarrow> Unknown" where
  "decodeListItem_meta obj [] = obj"
| "decodeListItem_meta obj (decoder # decoders) =
     (case DecodeInto decoder (Raw obj) obj of
        (None, obj') \<Rightarrow> obj'
      | (Some err, obj') \<Rightarrow> decodeListItem_meta obj' decoders)"

text \<open>
  Not a function of helper.go, only a name for a term of the statements below: the
  envelope after one metadata attempt of each decoder of \<open>ps\<close> in turn, every attempt made
  on the envelope as the attempt before left it, whether an attempt fails or not.
\<close>

abbreviation attempts_written :: "Unknown \<Rightarrow> 'a Decoder list \<Rightarrow> Unknown" where
  "attempts_written u ps \<equiv> foldl (\<lambda>obj p. snd (DecodeInto p (Raw obj) obj)) u ps"

definition decodeListItem :: "Unknown \<Rightarrow> 'a Decoder list \<Rightarrow> error + 'a Object" where
  "decodeListItem obj decoders =
     (case decodeListItem_full obj decoders of
        Some r \<Rightarrow> r
      | None \<Rightarrow> Inr (Envelope (decodeListItem_meta obj decoders)))"

text \<open>The loop of \<^verbatim>\<open>DecodeList\<close> over the positions, with the errors collected so far.\<close>

fun DecodeList_range ::
  "'a Decoder list \<Rightarrow> 'a Object list \<Rightarrow> error list \<Rightarrow> 'a Object list \<times> error list" where
  "DecodeList_range decoders [] errs = ([], errs)"
| "DecodeList_range decoders (Typed x # objects) errs =
     (case DecodeList_range decoders objects errs of
        (objects', errs') \<Rightarrow> (Typed x # objects', errs'))"
| "DecodeList_range decoders (Envelope t # objects) errs =
     (case decodeListItem t decoders of
        Inl err \<Rightarrow>
          (case DecodeList_range decoders objects (errs @ [err]) of
             (objects', errs') \<Rightarrow> (Envelope t # objects', errs'))
      | Inr decoded \<Rightarrow>
          (case DecodeList_range decoders objects errs of
             (objects', errs') \<Rightarrow> (decoded # objects', errs')))"

text \<open>\<^verbatim>\<open>DecodeList\<close>: the collection after the call and the returned errors.\<close>

definition DecodeList :: "'a Object list \<Rightarrow> 'a Decoder list \<Rightarrow> 'a Object list \<times> error list" where
  "DecodeList objects decoders = DecodeList_range decoders objects []"

section \<open>MultiObjectTyper\<close>

text \<open>
  \<^verbatim>\<open>ObjectKind\<close> and \<^verbatim>\<open>ObjectKinds\<close> have named results, assigned in every round of the
  loop and returned as they stand when the loop ends. The loops carry them.
\<close>

fun MultiObjectTyper_ObjectKind_range ::
  "'a ObjectTyper list \<Rightarrow> 'a Object \<Rightarrow> GroupVersionKind \<times> error option \<Rightarrow> GroupVersionKind \<times> error option" where
  "MultiObjectTyper_ObjectKind_range [] obj r = r"
| "MultiObjectTyper_ObjectKind_range (t # m) obj r =
     (case ObjectKind t obj of
        (gvk, None) \<Rightarrow> (gvk, None)
      | (gvk, Some err) \<Rightarrow> MultiObjectTyper_ObjectKind_range m obj (gvk, Some err))"

definition MultiObjectTyper_ObjectKind ::
  "'a ObjectTyper list \<Rightarrow> 'a Object \<Rightarrow> GroupVersionKind \<times> error option" where
  "MultiObjectTyper_ObjectKind m obj =
     MultiObjectTyper_ObjectKind_range m obj (zero_GroupVersionKind, None)"

fun MultiObjectTyper_ObjectKinds_range ::
  "'a ObjectTyper list \<Rightarrow> 'a Object \<Rightarrow> GroupVersionKind list \<times> error option \<Rightarrow> GroupVersionKind list \<times> error option" where
  "MultiObjectTyper_ObjectKinds_range [] obj r = r"
| "MultiObjectTyper_ObjectKinds_range (t # m) obj r =
     (case ObjectKinds t obj of
        (gvks, None) \<Rightarrow> (gvks, None)
      | (gvks, Some err) \<Rightarrow> MultiObjectTyper_ObjectKinds_range m obj (gvks, Some err))"

text \<open>A nil slice of \<^verbatim>\<open>GroupVersionKind\<close> is the empty list.\<close>

definition MultiObjectTyper_ObjectKinds ::
  "'a ObjectTyper list \<Rightarrow> 'a Object \<Rightarrow> GroupVersionKind list \<times> error option" where
  "MultiObjectTyper_ObjectKinds m obj = MultiObjectTyper_ObjectKinds_range m obj ([], None)"

fun MultiObjectTyper_Recognizes :: "'a ObjectTyper list \<Rightarrow> GroupVersionKind \<Rightarrow> bool" where
  "MultiObjectTyper_Recognizes [] gvk = False"
| "MultiObjectTyper_Recognizes (t # m) gvk =
     (if Recognizes t gvk then True else MultiObjectTyper_Recognizes m gvk)"

fun MultiObjectTyper_IsUnversioned :: "'a ObjectTyper list \<Rightarrow> 'a Object \<Rightarrow> bool \<times> bool" where
  "MultiObjectTyper_IsUnversioned [] obj = (False, False)"
| "MultiObjectTyper_IsUnversioned (t # m) obj =
     (case IsUnversioned t obj of
        (unversioned, ok) \<Rightarrow>
          if ok then (unversioned, True) else MultiObjectTyper_IsUnversioned m obj)"

section \<open>Sample collaborators\<close>

text \<open>
  Concrete typers, encoders and decoders over objects numbered by \<open>nat\<close>, on which the
  theorems below are run.
\<close>

definition pod_v1 :: GroupVersionKind where
  "pod_v1 = \<lparr>Group = [], Version = ''v1'', Kind = ''Pod''\<rparr>"

definition job_v1 :: GroupVersionKind where
  "job_v1 = \<lparr>Group = ''batch'', Version = ''v1'', Kind = ''Job''\<rparr>"

text \<open>A source that knows nothing: every lookup fails with the given message.\<close>

definition typer_fails :: "string \<Rightarrow> nat ObjectTyper" where
  "typer_fails msg =
     \<lparr>ObjectKind = (\<lambda>obj. (zero_GroupVersionKind, Some (ErrorString msg))),
      ObjectKinds = (\<lambda>obj. ([], Some (ErrorString msg))),
      Recognizes = (\<lambda>gvk. False),
      IsUnversioned = (\<lambda>obj. (False, False))\<rparr>"

text \<open>A source that gives every object the same kind and the same unversioned flag.\<close>

definition typer_knows :: "GroupVersionKind \<Rightarrow> bool \<Rightarrow> nat ObjectTyper" where
  "typer_knows gvk unv =
     \<lparr>ObjectKind = (\<lambda>obj. (gvk, None)),
      ObjectKinds = (\<lambda>obj. ([gvk], None)),
      Recognizes = (\<lambda>k. k = gvk),
      IsUnversioned = (\<lambda>obj. (unv, True))\<rparr>"

text \<open>A source that breaks its contract: it names a kind, then does not know the flag.\<close>

definition typer_half :: "GroupVersionKind \<Rightarrow> nat ObjectTyper" where
  "typer_half gvk =
     \<lparr>ObjectKind = (\<lambda>obj. (gvk, None)),
      ObjectKinds = (\<lambda>obj. ([gvk], None)),
      Recognizes = (\<lambda>k. k = gvk),
      IsUnversioned = (\<lambda>obj. (True, False))\<rparr>"

definition type_name :: "nat \<Rightarrow> string" where
  "type_name x = (if x = 0 then ''*api.Pod'' else ''*api.Job'')"

text \<open>An encoder that can serialize object 0 and envelopes, and nothing else.\<close>

definition enc_pod :: "nat Encoder" where
  "enc_pod =
     \<lparr>Encode = (\<lambda>obj overrides.
        case obj of
          Envelope u \<Rightarrow> Inr (Raw u)
        | Typed x \<Rightarrow> if x = 0 then Inr ''pod'' else Inl (ErrorString ''encode failed''))\<rparr>"

text \<open>A decoder that owns no kind and cannot read metadata; it writes nothing.\<close>

definition dec_none :: "nat Decoder" where
  "dec_none =
     \<lparr>Decode = (\<lambda>data. Inl (NotRegisteredErr data)),
      DecodeInto = (\<lambda>data into. (Some (ErrorString ''no metadata''), into))\<rparr>"

text \<open>
  A decoder that owns the kind serialized as \<open>''pod''\<close> and reads the metadata of any
  bytes.
\<close>

definition dec_pod :: "nat Decoder" where
  "dec_pod =
     \<lparr>Decode = (\<lambda>data. if data = ''pod'' then Inr (Typed 0) else Inl (NotRegisteredErr data)),
      DecodeInto = (\<lambda>data into.
        (None, into\<lparr>TypeMeta := \<lparr>APIVersion = ''v1'', TypeMeta.Kind = data\<rparr>\<rparr>))\<rparr>"

text \<open>A decoder that decodes any bytes to object 1.\<close>

definition dec_job :: "nat Decoder" where
  "dec_job =
     \<lparr>Decode = (\<lambda>data. Inr (Typed 1)),
      DecodeInto = (\<lambda>data into.
        (None, into\<lparr>TypeMeta := \<lparr>APIVersion = ''batch/v1'', TypeMeta.Kind = ''Job''\<rparr>\<rparr>))\<rparr>"

text \<open>A decoder that rejects every input as malformed.\<close>

definition dec_strict :: "nat Decoder" where
  "dec_strict =
     \<lparr>Decode = (\<lambda>data. Inl (ErrorString ''malformed'')),
      DecodeInto = (\<lambda>data into. (Some (ErrorString ''malformed''), into))\<rparr>"

text \<open>
  A decoder that owns no kind, and whose metadata attempt writes the kind it found into
  the envelope before it fails on the version.
\<close>

definition dec_partial :: "nat Decoder" where
  "dec_partial =
     \<lparr>Decode = (\<lambda>data. Inl (NotRegisteredErr data)),
      DecodeInto = (\<lambda>data into.
        (Some (ErrorString ''no version''),
         into\<lparr>TypeMeta := \<lparr>APIVersion = [], TypeMeta.Kind = data\<rparr>\<rparr>))\<rparr>"

text \<open>A decoder that decodes \<open>''pod''\<close> to object 0 and finds every other input malformed.\<close>

definition dec_picky :: "nat Decoder" where
  "dec_picky =
     \<lparr>Decode = (\<lambda>data. if data = ''pod'' then Inr (Typed 0) else Inl (ErrorString ''malformed'')),
      DecodeInto = (\<lambda>data into. (Some (ErrorString ''malformed''), into))\<rparr>"

text \<open>A decoder that owns no kind and reads the metadata of any bytes, as version v2.\<close>

definition dec_meta :: "nat Decoder" where
  "dec_meta =
     \<lparr>Decode = (\<lambda>data. Inl (NotRegisteredErr data)),
      DecodeInto = (\<lambda>data into.
        (None, into\<lparr>TypeMeta := \<lparr>APIVersion = ''v2'', TypeMeta.Kind = data\<rparr>\<rparr>))\<rparr>"

section \<open>The empty federation\<close>

text \<open>
  C9. With no source at all, \<^verbatim>\<open>MultiObjectTyper.ObjectKind\<close> returns the zero
  \<^verbatim>\<open>GroupVersionKind\<close> and a nil error, and \<^verbatim>\<open>ObjectKinds\<close> returns a nil list and a nil
  error, for every object: the named results are returned as they were initialised, so
  the call looks like a success.
\<close>

theorem MultiObjectTyper_empty:
  "MultiObjectTyper_ObjectKind [] obj = (zero_GroupVersionKind, None) \<and>
   MultiObjectTyper_ObjectKinds [] obj = ([], None)"
  by (simp add: MultiObjectTyper_ObjectKind_def MultiObjectTyper_ObjectKinds_def)

section \<open>The federation of typers\<close>

lemma ObjectKind_range_first:
  "\<forall>p\<in>set pre. snd (ObjectKind p obj) \<noteq> None \<Longrightarrow> snd (ObjectKind t obj) = None \<Longrightarrow>
   MultiObjectTyper_ObjectKind_range (pre @ t # post) obj r = ObjectKind t obj"
  by (induction pre arbitrary: r) (auto split: prod.splits option.splits)

lemma ObjectKind_range_last:
  "m \<noteq> [] \<Longrightarrow> \<forall>p\<in>set m. snd (ObjectKind p obj) \<noteq> None \<Longrightarrow>
   MultiObjectTyper_ObjectKind_range m obj r = ObjectKind (last m) obj"
proof (induction m arbitrary: r)
  case Nil
  then show ?case by simp
next
  case (Cons t m)
  obtain gvk err where t: "ObjectKind t obj = (gvk, Some err)"
    using Cons.prems(2) by (cases "ObjectKind t obj") auto
  show ?case
  proof (cases "m = []")
    case True
    then show ?thesis using t by simp
  next
    case False
    then show ?thesis using t Cons.IH [of "(gvk, Some err)"] Cons.prems(2) by simp
  qed
qed

lemma ObjectKinds_range_first:
  "\<forall>p\<in>set pre. snd (ObjectKinds p obj) \<noteq> None \<Longrightarrow> snd (ObjectKinds t obj) = None \<Longrightarrow>
   MultiObjectTyper_ObjectKinds_range (pre @ t # post) obj r = ObjectKinds t obj"
  by (induction pre arbitrary: r) (auto split: prod.splits option.splits)

lemma ObjectKinds_range_last:
  "m \<noteq> [] \<Longrightarrow> \<forall>p\<in>set m. snd (ObjectKinds p obj) \<noteq> None \<Longrightarrow>
   MultiObjectTyper_ObjectKinds_range m obj r = ObjectKinds (last m) obj"
proof (induction m arbitrary: r)
  case Nil
  then show ?case by simp
next
  case (Cons t m)
  obtain gvks err where t: "ObjectKinds t obj = (gvks, Some err)"
    using Cons.prems(2) by (cases "ObjectKinds t obj") auto
  show ?case
  proof (cases "m = []")
    case True
    then show ?thesis using t by simp
  next
    case False
    then show ?thesis using t Cons.IH [of "(gvks, Some err)"] Cons.prems(2) by simp
  qed
qed

text \<open>
  C7. For every object, \<^verbatim>\<open>MultiObjectTyper.ObjectKind\<close> and \<^verbatim>\<open>ObjectKinds\<close> ask the sources in
  list order and return the result of the first source that succeeds: when every source
  in \<open>pre\<close> fails and \<open>t\<close> succeeds, the result over \<open>pre @ t # post\<close> is the result of
  \<open>t\<close>, whatever the later sources \<open>post\<close> are. When the list is not empty and every
  source fails, the result is what the last source returned, so the error is the last
  source's error.
\<close>

theorem MultiObjectTyper_first_success:
  "((\<forall>p\<in>set pre. snd (ObjectKind p obj) \<noteq> None) \<and> snd (ObjectKind t obj) = None \<longrightarrow>
      MultiObjectTyper_ObjectKind (pre @ t # post) obj = ObjectKind t obj) \<and>
   (m \<noteq> [] \<and> (\<forall>p\<in>set m. snd (ObjectKind p obj) \<noteq> None) \<longrightarrow>
      MultiObjectTyper_ObjectKind m obj = ObjectKind (last m) obj) \<and>
   ((\<forall>p\<in>set pre. snd (ObjectKinds p obj) \<noteq> None) \<and> snd (ObjectKinds t obj) = None \<longrightarrow>
      MultiObjectTyper_ObjectKinds (pre @ t # post) obj = ObjectKinds t obj) \<and>
   (m \<noteq> [] \<and> (\<forall>p\<in>set m. snd (ObjectKinds p obj) \<noteq> None) \<longrightarrow>
      MultiObjectTyper_ObjectKinds m obj = ObjectKinds (last m) obj)"
  by (simp add: MultiObjectTyper_ObjectKind_def MultiObjectTyper_ObjectKinds_def
      ObjectKind_range_first ObjectKind_range_last ObjectKinds_range_first ObjectKinds_range_last)

text \<open>
  First success wins over a later source that would also succeed; with two failing
  sources the error of the second is returned.
\<close>

theorem MultiObjectTyper_first_success_witness:
  "MultiObjectTyper_ObjectKind [typer_fails ''a'', typer_knows pod_v1 False, typer_knows job_v1 True]
      (Typed 0) = (pod_v1, None) \<and>
   MultiObjectTyper_ObjectKind [typer_fails ''a'', typer_fails ''b''] (Typed 0) =
      (zero_GroupVersionKind, Some (ErrorString ''b'')) \<and>
   MultiObjectTyper_ObjectKinds [typer_fails ''a'', typer_knows pod_v1 False, typer_knows job_v1 True]
      (Typed 0) = ([pod_v1], None) \<and>
   MultiObjectTyper_ObjectKinds [typer_fails ''a'', typer_fails ''b''] (Typed 0) =
      ([], Some (ErrorString ''b''))"
  using MultiObjectTyper_first_success [of "[typer_fails ''a'']" "Typed 0" "typer_knows pod_v1 False"
      "[typer_knows job_v1 True]" "[typer_fails ''a'', typer_fails ''b'']"]
  by (simp add: typer_fails_def typer_knows_def)

lemma IsUnversioned_first:
  "\<forall>p\<in>set pre. \<not> snd (IsUnversioned p obj) \<Longrightarrow> IsUnversioned t obj = (v, True) \<Longrightarrow>
   MultiObjectTyper_IsUnversioned (pre @ t # post) obj = (v, True)"
  by (induction pre) (auto split: prod.splits)

lemma IsUnversioned_none:
  "\<forall>p\<in>set m. \<not> snd (IsUnversioned p obj) \<Longrightarrow>
   MultiObjectTyper_IsUnversioned m obj = (False, False)"
  by (induction m) (auto split: prod.splits)

text \<open>
  C8. For every object, \<^verbatim>\<open>MultiObjectTyper.IsUnversioned\<close> asks the sources in order and
  returns the flag \<open>v\<close> of the first source that reports found, together with found =
  true, also when \<open>v\<close> is false; when no source reports found it returns (false, false).
\<close>

theorem MultiObjectTyper_IsUnversioned_first_found:
  "((\<forall>p\<in>set pre. \<not> snd (IsUnversioned p obj)) \<and> IsUnversioned t obj = (v, True) \<longrightarrow>
      MultiObjectTyper_IsUnversioned (pre @ t # post) obj = (v, True)) \<and>
   ((\<forall>p\<in>set m. \<not> snd (IsUnversioned p obj)) \<longrightarrow>
      MultiObjectTyper_IsUnversioned m obj = (False, False))"
  using IsUnversioned_first IsUnversioned_none by blast

text \<open>
  The first source that knows says "not unversioned": the answer is (false, true),
  although a later source would say (true, true). With no source that knows, the answer
  is (false, false).
\<close>

theorem MultiObjectTyper_IsUnversioned_first_found_witness:
  "MultiObjectTyper_IsUnversioned [typer_half pod_v1, typer_knows pod_v1 False, typer_knows job_v1 True]
      (Typed 0) = (False, True) \<and>
   MultiObjectTyper_IsUnversioned [typer_half pod_v1, typer_fails ''b''] (Typed 0) = (False, False)"
  using MultiObjectTyper_IsUnversioned_first_found [of "[typer_half pod_v1]" "Typed 0"
      "typer_knows pod_v1 False" False "[typer_knows job_v1 True]" "[typer_half pod_v1, typer_fails ''b'']"]
  by (simp add: typer_fails_def typer_knows_def typer_half_def)

section \<open>The contract of objectTyperToTyper\<close>

text \<open>
  C6. For every object, \<^verbatim>\<open>objectTyperToTyper.ObjectKind\<close> hands on the error of the
  underlying kind lookup when that lookup fails. When the kind lookup succeeds and the
  underlying \<^verbatim>\<open>IsUnversioned\<close> reports found = false, it fails with the contract
  violation error, whose message carries the dynamic type of the object, and returns a
  nil kind and the flag false, whatever flag the source gave. Otherwise it returns the
  kind and the unversioned flag with a nil error.
\<close>

theorem objectTyperToTyper_ObjectKind_cases:
  "(ObjectKind typer obj = (gvk, Some err) \<longrightarrow>
      objectTyperToTyper_ObjectKind tn typer obj = (None, False, Some err)) \<and>
   (ObjectKind typer obj = (gvk, None) \<and> IsUnversioned typer obj = (unv, False) \<longrightarrow>
      objectTyperToTyper_ObjectKind tn typer obj =
        (None, False,
         Some (ErrorString (''typer returned a kind for '' @ TypeOf tn obj @
           '', but then reported it was not in the scheme with IsUnversioned'')))) \<and>
   (ObjectKind typer obj = (gvk, None) \<and> IsUnversioned typer obj = (unv, True) \<longrightarrow>
      objectTyperToTyper_ObjectKind tn typer obj = (Some gvk, unv, None))"
proof (intro conjI impI)
  assume "ObjectKind typer obj = (gvk, Some err)"
  then show "objectTyperToTyper_ObjectKind tn typer obj = (None, False, Some err)"
    by (simp add: objectTyperToTyper_ObjectKind_def)
next
  assume "ObjectKind typer obj = (gvk, None) \<and> IsUnversioned typer obj = (unv, False)"
  then show "objectTyperToTyper_ObjectKind tn typer obj =
      (None, False,
       Some (ErrorString (''typer returned a kind for '' @ TypeOf tn obj @
         '', but then reported it was not in the scheme with IsUnversioned'')))"
    by (simp add: objectTyperToTyper_ObjectKind_def)
next
  assume "ObjectKind typer obj = (gvk, None) \<and> IsUnversioned typer obj = (unv, True)"
  then show "objectTyperToTyper_ObjectKind tn typer obj = (Some gvk, unv, None)"
    by (simp add: objectTyperToTyper_ObjectKind_def)
qed

text \<open>The three outcomes, on a failing source, a source that breaks the contract and a sound one.\<close>

theorem objectTyperToTyper_ObjectKind_cases_witness:
  "objectTyperToTyper_ObjectKind type_name (typer_fails ''no kind'') (Typed 0) =
     (None, False, Some (ErrorString ''no kind'')) \<and>
   objectTyperToTyper_ObjectKind type_name (typer_half pod_v1) (Typed 0) =
     (None, False,
      Some (ErrorString
        ''typer returned a kind for *api.Pod, but then reported it was not in the scheme with IsUnversioned'')) \<and>
   objectTyperToTyper_ObjectKind type_name (typer_knows job_v1 True) (Typed 1) =
     (Some job_v1, True, None)"
  using objectTyperToTyper_ObjectKind_cases [where typer = "typer_fails ''no kind''" and obj = "Typed 0"
      and gvk = zero_GroupVersionKind and err = "ErrorString ''no kind''" and tn = type_name]
    objectTyperToTyper_ObjectKind_cases [where typer = "typer_half pod_v1" and obj = "Typed 0"
      and gvk = pod_v1 and unv = True and tn = type_name]
    objectTyperToTyper_ObjectKind_cases [where typer = "typer_knows job_v1 True" and obj = "Typed 1"
      and gvk = job_v1 and unv = True and tn = type_name]
  by (simp add: typer_fails_def typer_knows_def typer_half_def type_name_def)

section \<open>The loops over the positions\<close>

lemma DecodeList_range_errs:
  "DecodeList_range ds xs errs =
     (fst (DecodeList_range ds xs []), errs @ snd (DecodeList_range ds xs []))"
proof (induction xs arbitrary: errs)
  case Nil
  show ?case by simp
next
  case (Cons x xs)
  show ?case
  proof (cases x)
    case (Typed y)
    then show ?thesis using Cons.IH [of errs] by (simp add: case_prod_beta)
  next
    case (Envelope t)
    show ?thesis
    proof (cases "decodeListItem t ds")
      case (Inl err)
      then show ?thesis
        using Envelope Cons.IH [of "errs @ [err]"] Cons.IH [of "[err]"] by (simp add: case_prod_beta)
    next
      case (Inr decoded)
      then show ?thesis using Envelope Cons.IH [of errs] by (simp add: case_prod_beta)
    qed
  qed
qed

lemma DecodeList_range_append:
  "DecodeList_range ds (xs @ ys) errs =
     (fst (DecodeList_range ds xs []) @ fst (DecodeList_range ds ys []),
      errs @ snd (DecodeList_range ds xs []) @ snd (DecodeList_range ds ys []))"
proof (induction xs arbitrary: errs)
  case Nil
  show ?case using DecodeList_range_errs [of ds ys errs] by simp
next
  case (Cons x xs)
  show ?case
  proof (cases x)
    case (Typed y)
    then show ?thesis using Cons.IH [of errs] Cons.IH [of "[]"] by (simp add: case_prod_beta)
  next
    case (Envelope t)
    show ?thesis
    proof (cases "decodeListItem t ds")
      case (Inl err)
      then show ?thesis
        using Envelope Cons.IH [of "errs @ [err]"] DecodeList_range_errs [of ds xs "[err]"]
        by (simp add: case_prod_beta)
    next
      case (Inr decoded)
      then show ?thesis using Envelope Cons.IH [of errs] Cons.IH [of "[]"] by (simp add: case_prod_beta)
    qed
  qed
qed

lemma DecodeList_append:
  "DecodeList (xs @ ys) ds =
     (fst (DecodeList xs ds) @ fst (DecodeList ys ds),
      snd (DecodeList xs ds) @ snd (DecodeList ys ds))"
  unfolding DecodeList_def using DecodeList_range_append [of ds xs ys "[]"] by simp

lemma DecodeList_length: "length (fst (DecodeList xs ds)) = length xs"
proof (induction xs)
  case Nil
  show ?case by (simp add: DecodeList_def)
next
  case (Cons x xs)
  have "length (fst (DecodeList [x] ds)) = 1"
    by (cases x) (simp_all add: DecodeList_def split: sum.splits)
  then show ?case using DecodeList_append [of "[x]" xs ds] Cons.IH by simp
qed

lemma DecodeList_split:
  assumes "i < length xs"
  shows "DecodeList xs ds =
     (fst (DecodeList (take i xs) ds) @ fst (DecodeList [xs ! i] ds) @
        fst (DecodeList (drop (Suc i) xs) ds),
      snd (DecodeList (take i xs) ds) @ snd (DecodeList [xs ! i] ds) @
        snd (DecodeList (drop (Suc i) xs) ds))"
proof -
  have "xs = take i xs @ ([xs ! i] @ drop (Suc i) xs)"
    using assms by (simp add: id_take_nth_drop)
  then have "DecodeList xs ds = DecodeList (take i xs @ ([xs ! i] @ drop (Suc i) xs)) ds"
    by simp
  then show ?thesis
    by (simp only: DecodeList_append [of "take i xs"] DecodeList_append [of "[xs ! i]"]
        fst_conv snd_conv)
qed

lemma DecodeList_nth:
  assumes "i < length xs"
  shows "[fst (DecodeList xs ds) ! i] = fst (DecodeList [xs ! i] ds)"
proof -
  have l: "length (fst (DecodeList (take i xs) ds)) = i"
    using assms by (simp add: DecodeList_length)
  obtain y where y: "fst (DecodeList [xs ! i] ds) = [y]"
    using DecodeList_length [of "[xs ! i]" ds] by (cases "fst (DecodeList [xs ! i] ds)") auto
  have "fst (DecodeList xs ds) =
      fst (DecodeList (take i xs) ds) @ y # fst (DecodeList (drop (Suc i) xs) ds)"
    using DecodeList_split [OF assms, of ds] y by simp
  then have "fst (DecodeList xs ds) ! i = y"
    using l by (simp add: nth_append)
  then show ?thesis using y by simp
qed

lemma EncodeList_range_errs:
  "EncodeList_range e ov xs errs =
     (fst (EncodeList_range e ov xs []), errs @ snd (EncodeList_range e ov xs []))"
proof (induction xs arbitrary: errs)
  case Nil
  show ?case by simp
next
  case (Cons x xs)
  show ?case
  proof (cases "Encode e x ov")
    case (Inl err)
    then show ?thesis using Cons.IH [of "errs @ [err]"] Cons.IH [of "[err]"] by (simp add: case_prod_beta)
  next
    case (Inr data)
    then show ?thesis using Cons.IH [of errs] by (simp add: case_prod_beta)
  qed
qed

lemma EncodeList_range_append:
  "EncodeList_range e ov (xs @ ys) errs =
     (fst (EncodeList_range e ov xs []) @ fst (EncodeList_range e ov ys []),
      errs @ snd (EncodeList_range e ov xs []) @ snd (EncodeList_range e ov ys []))"
proof (induction xs arbitrary: errs)
  case Nil
  show ?case using EncodeList_range_errs [of e ov ys errs] by simp
next
  case (Cons x xs)
  show ?case
  proof (cases "Encode e x ov")
    case (Inl err)
    then show ?thesis
      using Cons.IH [of "errs @ [err]"] EncodeList_range_errs [of e ov xs "[err]"] by (simp add: case_prod_beta)
  next
    case (Inr data)
    then show ?thesis using Cons.IH [of errs] Cons.IH [of "[]"] by (simp add: case_prod_beta)
  qed
qed

lemma EncodeList_fst: "fst (EncodeList e xs ov) = fst (EncodeList_range e ov xs [])"
  by (simp add: EncodeList_def split: prod.splits)

lemma EncodeList_snd:
  "snd (EncodeList e xs ov) = NewAggregate (snd (EncodeList_range e ov xs []))"
  by (simp add: EncodeList_def split: prod.splits)

lemma EncodeList_range_length: "length (fst (EncodeList_range e ov xs [])) = length xs"
proof (induction xs)
  case Nil
  show ?case by simp
next
  case (Cons x xs)
  have "length (fst (EncodeList_range e ov [x] [])) = 1"
    by (simp split: sum.splits)
  then show ?case using EncodeList_range_append [of e ov "[x]" xs "[]"] Cons.IH by simp
qed

lemma EncodeList_range_split:
  assumes "i < length xs"
  shows "EncodeList_range e ov xs [] =
     (fst (EncodeList_range e ov (take i xs) []) @ fst (EncodeList_range e ov [xs ! i] []) @
        fst (EncodeList_range e ov (drop (Suc i) xs) []),
      snd (EncodeList_range e ov (take i xs) []) @ snd (EncodeList_range e ov [xs ! i] []) @
        snd (EncodeList_range e ov (drop (Suc i) xs) []))"
proof -
  have "xs = take i xs @ ([xs ! i] @ drop (Suc i) xs)"
    using assms by (simp add: id_take_nth_drop)
  then have "EncodeList_range e ov xs [] =
      EncodeList_range e ov (take i xs @ ([xs ! i] @ drop (Suc i) xs)) []"
    by simp
  then show ?thesis
    by (simp only: EncodeList_range_append [of e ov "take i xs" _ "[]"]
        EncodeList_range_append [of e ov "[xs ! i]" _ "[]"] fst_conv snd_conv append_Nil)
qed

lemma EncodeList_range_nth:
  assumes "i < length xs"
  shows "[fst (EncodeList_range e ov xs []) ! i] = fst (EncodeList_range e ov [xs ! i] [])"
proof -
  have l: "length (fst (EncodeList_range e ov (take i xs) [])) = i"
    using assms by (simp add: EncodeList_range_length)
  obtain y where y: "fst (EncodeList_range e ov [xs ! i] []) = [y]"
    using EncodeList_range_length [of e ov "[xs ! i]"]
    by (cases "fst (EncodeList_range e ov [xs ! i] [])") auto
  have "fst (EncodeList_range e ov xs []) =
      fst (EncodeList_range e ov (take i xs) []) @ y # fst (EncodeList_range e ov (drop (Suc i) xs) [])"
    using EncodeList_range_split [OF assms, of e ov] y by simp
  then have "fst (EncodeList_range e ov xs []) ! i = y"
    using l by (simp add: nth_append)
  then show ?thesis using y by simp
qed

lemma EncodeList_range_errors:
  "snd (EncodeList_range e ov xs []) =
     concat (map (\<lambda>obj. case Encode e obj ov of Inl err \<Rightarrow> [err] | Inr data \<Rightarrow> []) xs)"
proof (induction xs)
  case Nil
  show ?case by simp
next
  case (Cons x xs)
  have "snd (EncodeList_range e ov [x] []) =
      (case Encode e x ov of Inl err \<Rightarrow> [err] | Inr data \<Rightarrow> [])"
    by (simp split: sum.splits)
  then show ?case using EncodeList_range_append [of e ov "[x]" xs "[]"] Cons.IH by simp
qed

lemma EncodeList_range_single:
  "EncodeList_range e ov [obj] [] =
     (case Encode e obj ov of
        Inl err \<Rightarrow> ([obj], [err])
      | Inr data \<Rightarrow> ([Envelope (Unknown_Raw data)], []))"
  by (simp split: sum.splits)

lemma EncodeList_range_map:
  "EncodeList_range e ov objects errs =
     (map (\<lambda>obj. case Encode e obj ov of Inl err \<Rightarrow> obj | Inr data \<Rightarrow> Envelope (Unknown_Raw data))
        objects,
      errs @ concat (map (\<lambda>obj. case Encode e obj ov of Inl err \<Rightarrow> [err] | Inr data \<Rightarrow> []) objects))"
proof (induction objects arbitrary: errs)
  case Nil
  show ?case by simp
next
  case (Cons x xs)
  show ?case
  proof (cases "Encode e x ov")
    case (Inl err)
    then show ?thesis using Cons.IH [of "errs @ [err]"] by simp
  next
    case (Inr data)
    then show ?thesis using Cons.IH [of errs] by simp
  qed
qed

lemma DecodeList_range_map:
  "DecodeList_range ds objects errs =
     (map (\<lambda>obj. case obj of
              Envelope t \<Rightarrow> (case decodeListItem t ds of Inl err \<Rightarrow> obj | Inr decoded \<Rightarrow> decoded)
            | Typed x \<Rightarrow> obj) objects,
      errs @ concat (map (\<lambda>obj. case obj of
              Envelope t \<Rightarrow> (case decodeListItem t ds of Inl err \<Rightarrow> [err] | Inr decoded \<Rightarrow> [])
            | Typed x \<Rightarrow> []) objects))"
proof (induction objects arbitrary: errs)
  case Nil
  show ?case by simp
next
  case (Cons x xs)
  show ?case
  proof (cases x)
    case (Typed y)
    then show ?thesis using Cons.IH [of errs] by simp
  next
    case (Envelope t)
    show ?thesis
    proof (cases "decodeListItem t ds")
      case (Inl err)
      then show ?thesis using Envelope Cons.IH [of "errs @ [err]"] by simp
    next
      case (Inr decoded)
      then show ?thesis using Envelope Cons.IH [of errs] by simp
    qed
  qed
qed

lemma decodeListItem_full_skip:
  "\<forall>p\<in>set pre. \<exists>e. Decode p (Raw u) = Inl e \<and> IsNotRegisteredError e \<Longrightarrow>
   decodeListItem_full u (pre @ ds) = decodeListItem_full u ds"
  by (induction pre) auto

lemma decodeListItem_full_none:
  "\<forall>p\<in>set ds. \<exists>e. Decode p (Raw u) = Inl e \<and> IsNotRegisteredError e \<Longrightarrow>
   decodeListItem_full u ds = None"
  using decodeListItem_full_skip [of ds u "[]"] by simp

lemma decodeListItem_meta_failed_prefix:
  "\<forall>k<length pre. fst (DecodeInto (pre ! k) (Raw (attempts_written u (take k pre)))
        (attempts_written u (take k pre))) \<noteq> None \<Longrightarrow>
   decodeListItem_meta u (pre @ ds) = decodeListItem_meta (attempts_written u pre) ds"
proof (induction pre arbitrary: u)
  case Nil
  show ?case by simp
next
  case (Cons p pre)
  have "fst (DecodeInto p (Raw u) u) \<noteq> None"
    using Cons.prems [rule_format, of 0] by simp
  then obtain e u1 where p: "DecodeInto p (Raw u) u = (Some e, u1)"
    by (cases "DecodeInto p (Raw u) u") auto
  have "\<forall>k<length pre. fst (DecodeInto (pre ! k) (Raw (attempts_written u1 (take k pre)))
        (attempts_written u1 (take k pre))) \<noteq> None"
  proof (intro allI impI)
    fix k assume "k < length pre"
    then show "fst (DecodeInto (pre ! k) (Raw (attempts_written u1 (take k pre)))
        (attempts_written u1 (take k pre))) \<noteq> None"
      using Cons.prems [rule_format, of "Suc k"] p by simp
  qed
  then have "decodeListItem_meta u1 (pre @ ds) = decodeListItem_meta (attempts_written u1 pre) ds"
    by (rule Cons.IH)
  then show ?case using p by simp
qed

lemma attempts_written_same:
  "\<forall>p\<in>set ps. snd (DecodeInto p (Raw u) u) = u \<Longrightarrow> attempts_written u ps = u"
  by (induction ps) simp_all

lemma DecodeList_Envelope:
  "DecodeList [Envelope u] ds =
     (case decodeListItem u ds of
        Inl err \<Rightarrow> ([Envelope u], [err])
      | Inr decoded \<Rightarrow> ([decoded], []))"
  by (simp add: DecodeList_def split: sum.splits)

section \<open>DecodeList, one position at a time\<close>

text \<open>
  C1. Let position \<open>i\<close> of the collection hold an envelope \<open>u\<close>, and let every decoder
  in \<open>pre\<close> fail on the raw bytes of \<open>u\<close> with a not-registered error, so that decoder
  \<open>d\<close> is tried next. If \<open>d\<close> decodes the bytes to \<open>x\<close>, position \<open>i\<close> holds \<open>x\<close>
  afterwards and no error is recorded for it, whatever the later decoders \<open>post\<close> are. If
  \<open>d\<close> fails with any other error, that error is recorded for the position, between the
  errors of the earlier and of the later positions, and position \<open>i\<close> still holds the
  envelope \<open>u\<close> as it was: no metadata is written. In both cases the positions before and
  after \<open>i\<close> are processed as they would be on their own.
\<close>

theorem DecodeList_full_decode:
  assumes "i < length objects" and "objects ! i = Envelope u"
    and "\<forall>p\<in>set pre. \<exists>e. Decode p (Raw u) = Inl e \<and> IsNotRegisteredError e"
  shows
    "(Decode d (Raw u) = Inr x \<longrightarrow>
        DecodeList objects (pre @ d # post) =
          (fst (DecodeList (take i objects) (pre @ d # post)) @ [x] @
             fst (DecodeList (drop (Suc i) objects) (pre @ d # post)),
           snd (DecodeList (take i objects) (pre @ d # post)) @
             snd (DecodeList (drop (Suc i) objects) (pre @ d # post)))) \<and>
     (Decode d (Raw u) = Inl err \<and> \<not> IsNotRegisteredError err \<longrightarrow>
        DecodeList objects (pre @ d # post) =
          (fst (DecodeList (take i objects) (pre @ d # post)) @ [Envelope u] @
             fst (DecodeList (drop (Suc i) objects) (pre @ d # post)),
           snd (DecodeList (take i objects) (pre @ d # post)) @ [err] @
             snd (DecodeList (drop (Suc i) objects) (pre @ d # post))))"
proof -
  let ?ds = "pre @ d # post"
  have full: "decodeListItem_full u ?ds = decodeListItem_full u (d # post)"
    using assms(3) by (rule decodeListItem_full_skip)
  have split: "DecodeList objects ?ds =
     (fst (DecodeList (take i objects) ?ds) @ fst (DecodeList [Envelope u] ?ds) @
        fst (DecodeList (drop (Suc i) objects) ?ds),
      snd (DecodeList (take i objects) ?ds) @ snd (DecodeList [Envelope u] ?ds) @
        snd (DecodeList (drop (Suc i) objects) ?ds))"
    using DecodeList_split [OF assms(1), of ?ds] assms(2) by simp
  have ok: "DecodeList [Envelope u] ?ds = ([x], [])" if "Decode d (Raw u) = Inr x"
    using that full by (simp add: DecodeList_Envelope decodeListItem_def)
  have bad: "DecodeList [Envelope u] ?ds = ([Envelope u], [err])"
    if "Decode d (Raw u) = Inl err" and "\<not> IsNotRegisteredError err"
    using that full by (simp add: DecodeList_Envelope decodeListItem_def)
  show ?thesis using split ok bad by simp
qed

text \<open>
  After a decoder that does not own the kind, the second decoder decodes both envelopes
  and the third is not asked. A malformed input is reported once and the envelope stays
  as it is, although the last decoder could have written its metadata.
\<close>

theorem DecodeList_full_decode_witness:
  "DecodeList [Typed 5, Envelope (Unknown_Raw ''pod''), Envelope (Unknown_Raw ''pod'')]
     [dec_none, dec_pod, dec_job] = ([Typed 5, Typed 0, Typed 0], []) \<and>
   DecodeList [Typed 5, Envelope (Unknown_Raw ''pod''), Typed 7] [dec_none, dec_strict, dec_pod] =
     ([Typed 5, Envelope (Unknown_Raw ''pod''), Typed 7], [ErrorString ''malformed''])"
proof -
  have a: "DecodeList [Typed 5, Envelope (Unknown_Raw ''pod''), Envelope (Unknown_Raw ''pod'')]
     [dec_none, dec_pod, dec_job] = ([Typed 5, Typed 0, Typed 0], [])"
    using DecodeList_full_decode [where i = 1 and u = "Unknown_Raw ''pod''" and pre = "[dec_none]"
        and objects = "[Typed 5, Envelope (Unknown_Raw ''pod''), Envelope (Unknown_Raw ''pod'')]"
        and d = dec_pod and post = "[dec_job]" and x = "Typed 0"]
    by (simp add: DecodeList_def decodeListItem_def dec_none_def dec_pod_def dec_job_def
        Unknown_Raw_def)
  have b: "DecodeList [Typed 5, Envelope (Unknown_Raw ''pod''), Typed 7]
     [dec_none, dec_strict, dec_pod] =
     ([Typed 5, Envelope (Unknown_Raw ''pod''), Typed 7], [ErrorString ''malformed''])"
    using DecodeList_full_decode [where i = 1 and u = "Unknown_Raw ''pod''" and pre = "[dec_none]"
        and objects = "[Typed 5, Envelope (Unknown_Raw ''pod''), Typed 7]"
        and d = dec_strict and post = "[dec_pod]" and err = "ErrorString ''malformed''"]
    by (simp add: DecodeList_def decodeListItem_def dec_none_def dec_pod_def dec_strict_def
        Unknown_Raw_def)
  show ?thesis using a b by simp
qed

text \<open>
  C2, as amended. Let position \<open>i\<close> hold an envelope \<open>u\<close> that every decoder refuses
  with a not-registered error. Then \<^verbatim>\<open>DecodeList\<close> asks the decoders in order to parse
  the metadata into the envelope in place, each attempt on the envelope as the attempt
  before left it, and records no error for the position. If the attempts of the decoders
  \<open>pre\<close> fail and the attempt of \<open>d\<close> succeeds, the position holds the envelope as \<open>d\<close>
  left it, whatever the later decoders \<open>post\<close> are: they are not asked. If every attempt
  fails, the position holds the envelope as the failed attempts left it; when the failed
  attempts wrote nothing, that is the very envelope the position held before the call.
\<close>

theorem DecodeList_metadata_fallback:
  assumes "i < length objects" and "objects ! i = Envelope u"
    and "\<forall>p\<in>set ds. \<exists>e. Decode p (Raw u) = Inl e \<and> IsNotRegisteredError e"
  shows
    "(ds = pre @ d # post \<and>
      (\<forall>k<length pre.
         fst (DecodeInto (pre ! k) (Raw (attempts_written u (take k pre)))
           (attempts_written u (take k pre))) \<noteq> None) \<and>
      fst (DecodeInto d (Raw (attempts_written u pre)) (attempts_written u pre)) = None \<longrightarrow>
        DecodeList objects ds =
          (fst (DecodeList (take i objects) ds) @
             [Envelope (snd (DecodeInto d (Raw (attempts_written u pre)) (attempts_written u pre)))] @
             fst (DecodeList (drop (Suc i) objects) ds),
           snd (DecodeList (take i objects) ds) @ snd (DecodeList (drop (Suc i) objects) ds))) \<and>
     ((\<forall>k<length ds.
         fst (DecodeInto (ds ! k) (Raw (attempts_written u (take k ds)))
           (attempts_written u (take k ds))) \<noteq> None) \<longrightarrow>
        DecodeList objects ds =
          (fst (DecodeList (take i objects) ds) @ [Envelope (attempts_written u ds)] @
             fst (DecodeList (drop (Suc i) objects) ds),
           snd (DecodeList (take i objects) ds) @ snd (DecodeList (drop (Suc i) objects) ds))) \<and>
     ((\<forall>p\<in>set ds. fst (DecodeInto p (Raw u) u) \<noteq> None \<and> snd (DecodeInto p (Raw u) u) = u) \<longrightarrow>
        DecodeList objects ds =
          (fst (DecodeList (take i objects) ds) @ [Envelope u] @
             fst (DecodeList (drop (Suc i) objects) ds),
           snd (DecodeList (take i objects) ds) @ snd (DecodeList (drop (Suc i) objects) ds)))"
proof -
  have "decodeListItem_full u ds = None"
    using assms(3) by (rule decodeListItem_full_none)
  then have item: "DecodeList [Envelope u] ds = ([Envelope (decodeListItem_meta u ds)], [])"
    by (simp add: DecodeList_Envelope decodeListItem_def)
  have pos: "DecodeList objects ds =
       (fst (DecodeList (take i objects) ds) @ [Envelope (decodeListItem_meta u ds)] @
          fst (DecodeList (drop (Suc i) objects) ds),
        snd (DecodeList (take i objects) ds) @ snd (DecodeList (drop (Suc i) objects) ds))"
    using DecodeList_split [OF assms(1), of ds] assms(2) item by simp
  have first: "decodeListItem_meta u (pre @ d # post) =
      snd (DecodeInto d (Raw (attempts_written u pre)) (attempts_written u pre))"
    if "\<forall>k<length pre.
         fst (DecodeInto (pre ! k) (Raw (attempts_written u (take k pre)))
           (attempts_written u (take k pre))) \<noteq> None"
      and "fst (DecodeInto d (Raw (attempts_written u pre)) (attempts_written u pre)) = None"
    using decodeListItem_meta_failed_prefix [OF that(1), of "d # post"] that(2)
    by (simp split: prod.splits)
  have none: "decodeListItem_meta u ds = attempts_written u ds"
    if "\<forall>k<length ds.
         fst (DecodeInto (ds ! k) (Raw (attempts_written u (take k ds)))
           (attempts_written u (take k ds))) \<noteq> None"
    using decodeListItem_meta_failed_prefix [OF that, of "[]"] by simp
  have same: "decodeListItem_meta u ds = u"
    if "\<forall>p\<in>set ds. fst (DecodeInto p (Raw u) u) \<noteq> None \<and> snd (DecodeInto p (Raw u) u) = u"
  proof -
    have w: "attempts_written u (take k ds) = u" for k
      using that by (intro attempts_written_same) (auto dest: in_set_takeD)
    have "\<forall>k<length ds.
         fst (DecodeInto (ds ! k) (Raw (attempts_written u (take k ds)))
           (attempts_written u (take k ds))) \<noteq> None"
      using that by (simp only: w) simp
    then have "decodeListItem_meta u ds = attempts_written u ds" by (rule none)
    then show ?thesis using w [of "length ds"] by simp
  qed
  show ?thesis
  proof (intro conjI impI)
    assume a: "ds = pre @ d # post \<and>
      (\<forall>k<length pre.
         fst (DecodeInto (pre ! k) (Raw (attempts_written u (take k pre)))
           (attempts_written u (take k pre))) \<noteq> None) \<and>
      fst (DecodeInto d (Raw (attempts_written u pre)) (attempts_written u pre)) = None"
    then have "decodeListItem_meta u ds =
        snd (DecodeInto d (Raw (attempts_written u pre)) (attempts_written u pre))"
      using first by blast
    then show "DecodeList objects ds =
          (fst (DecodeList (take i objects) ds) @
             [Envelope (snd (DecodeInto d (Raw (attempts_written u pre)) (attempts_written u pre)))] @
             fst (DecodeList (drop (Suc i) objects) ds),
           snd (DecodeList (take i objects) ds) @ snd (DecodeList (drop (Suc i) objects) ds))"
      using pos by simp
  next
    assume "\<forall>k<length ds.
         fst (DecodeInto (ds ! k) (Raw (attempts_written u (take k ds)))
           (attempts_written u (take k ds))) \<noteq> None"
    then have "decodeListItem_meta u ds = attempts_written u ds" by (rule none)
    then show "DecodeList objects ds =
          (fst (DecodeList (take i objects) ds) @ [Envelope (attempts_written u ds)] @
             fst (DecodeList (drop (Suc i) objects) ds),
           snd (DecodeList (take i objects) ds) @ snd (DecodeList (drop (Suc i) objects) ds))"
      using pos by simp
  next
    assume "\<forall>p\<in>set ds. fst (DecodeInto p (Raw u) u) \<noteq> None \<and> snd (DecodeInto p (Raw u) u) = u"
    then have "decodeListItem_meta u ds = u" by (rule same)
    then show "DecodeList objects ds =
          (fst (DecodeList (take i objects) ds) @ [Envelope u] @
             fst (DecodeList (drop (Suc i) objects) ds),
           snd (DecodeList (take i objects) ds) @ snd (DecodeList (drop (Suc i) objects) ds))"
      using pos by simp
  qed
qed

text \<open>
  The second decoder writes version v1 and the third, which would write v2, is not
  asked. After an attempt that wrote the kind and failed, the next decoder is still asked
  and writes v2. When the last attempt writes the kind and fails, the kind stays. With two
  decoders that write nothing the envelope is unchanged.
\<close>

theorem DecodeList_metadata_fallback_witness:
  "DecodeList [Typed 5, Envelope (Unknown_Raw ''job'')] [dec_none, dec_pod, dec_meta] =
     ([Typed 5,
       Envelope ((Unknown_Raw ''job'')\<lparr>TypeMeta := \<lparr>APIVersion = ''v1'', TypeMeta.Kind = ''job''\<rparr>\<rparr>)],
      []) \<and>
   DecodeList [Typed 5, Envelope (Unknown_Raw ''job'')] [dec_partial, dec_meta, dec_pod] =
     ([Typed 5,
       Envelope ((Unknown_Raw ''job'')\<lparr>TypeMeta := \<lparr>APIVersion = ''v2'', TypeMeta.Kind = ''job''\<rparr>\<rparr>)],
      []) \<and>
   DecodeList [Typed 5, Envelope (Unknown_Raw ''job'')] [dec_none, dec_partial] =
     ([Typed 5,
       Envelope ((Unknown_Raw ''job'')\<lparr>TypeMeta := \<lparr>APIVersion = [], TypeMeta.Kind = ''job''\<rparr>\<rparr>)],
      []) \<and>
   DecodeList [Typed 5, Envelope (Unknown_Raw ''job'')] [dec_none, dec_none] =
     ([Typed 5, Envelope (Unknown_Raw ''job'')], [])"
proof -
  have a: "DecodeList [Typed 5, Envelope (Unknown_Raw ''job'')] [dec_none, dec_pod, dec_meta] =
     ([Typed 5,
       Envelope ((Unknown_Raw ''job'')\<lparr>TypeMeta := \<lparr>APIVersion = ''v1'', TypeMeta.Kind = ''job''\<rparr>\<rparr>)],
      [])"
    using DecodeList_metadata_fallback [where i = 1 and u = "Unknown_Raw ''job''"
        and objects = "[Typed 5, Envelope (Unknown_Raw ''job'')]"
        and ds = "[dec_none, dec_pod, dec_meta]" and pre = "[dec_none]" and d = dec_pod
        and post = "[dec_meta]"]
    by (simp add: DecodeList_def dec_none_def dec_pod_def dec_meta_def Unknown_Raw_def)
  have b: "DecodeList [Typed 5, Envelope (Unknown_Raw ''job'')] [dec_partial, dec_meta, dec_pod] =
     ([Typed 5,
       Envelope ((Unknown_Raw ''job'')\<lparr>TypeMeta := \<lparr>APIVersion = ''v2'', TypeMeta.Kind = ''job''\<rparr>\<rparr>)],
      [])"
    using DecodeList_metadata_fallback [where i = 1 and u = "Unknown_Raw ''job''"
        and objects = "[Typed 5, Envelope (Unknown_Raw ''job'')]"
        and ds = "[dec_partial, dec_meta, dec_pod]" and pre = "[dec_partial]" and d = dec_meta
        and post = "[dec_pod]"]
    by (simp add: DecodeList_def dec_partial_def dec_pod_def dec_meta_def Unknown_Raw_def)
  have c: "DecodeList [Typed 5, Envelope (Unknown_Raw ''job'')] [dec_none, dec_partial] =
     ([Typed 5,
       Envelope ((Unknown_Raw ''job'')\<lparr>TypeMeta := \<lparr>APIVersion = [], TypeMeta.Kind = ''job''\<rparr>\<rparr>)],
      [])"
    using DecodeList_metadata_fallback [where i = 1 and u = "Unknown_Raw ''job''"
        and objects = "[Typed 5, Envelope (Unknown_Raw ''job'')]"
        and ds = "[dec_none, dec_partial]" and pre = "[]" and d = dec_none and post = "[]"]
    by (simp add: DecodeList_def dec_none_def dec_partial_def Unknown_Raw_def less_Suc_eq)
  have d: "DecodeList [Typed 5, Envelope (Unknown_Raw ''job'')] [dec_none, dec_none] =
     ([Typed 5, Envelope (Unknown_Raw ''job'')], [])"
    using DecodeList_metadata_fallback [where i = 1 and u = "Unknown_Raw ''job''"
        and objects = "[Typed 5, Envelope (Unknown_Raw ''job'')]"
        and ds = "[dec_none, dec_none]" and pre = "[]" and d = dec_none and post = "[]"]
    by (simp add: DecodeList_def dec_none_def Unknown_Raw_def)
  show ?thesis using a b c d by simp
qed

text \<open>
  C2 as stated does not hold for every decoder: a metadata attempt gets the pointer to
  the envelope, and what it wrote before failing stays. Here the only decoder refuses the
  kind, its metadata attempt fails after writing the kind, no error is recorded, and the
  position no longer holds the envelope it held before the call.
\<close>

theorem DecodeList_failed_metadata_write:
  "Decode dec_partial (Raw (Unknown_Raw ''job'')) = Inl (NotRegisteredErr ''job'') \<and>
   fst (DecodeInto dec_partial (Raw (Unknown_Raw ''job'')) (Unknown_Raw ''job'')) =
     Some (ErrorString ''no version'') \<and>
   DecodeList [Envelope (Unknown_Raw ''job'')] [dec_partial] =
     ([Envelope ((Unknown_Raw ''job'')\<lparr>TypeMeta := \<lparr>APIVersion = [], TypeMeta.Kind = ''job''\<rparr>\<rparr>)],
      []) \<and>
   fst (DecodeList [Envelope (Unknown_Raw ''job'')] [dec_partial]) \<noteq> [Envelope (Unknown_Raw ''job'')]"
  by (simp add: DecodeList_def decodeListItem_def dec_partial_def Unknown_Raw_def)

text \<open>
  C10. With an empty list of decoders \<^verbatim>\<open>DecodeList\<close> returns no error and leaves every
  position, envelope or not, as it was.
\<close>

theorem DecodeList_no_decoders: "DecodeList objects [] = (objects, [])"
proof -
  have "DecodeList_range [] objects errs = (objects, errs)" for errs :: "error list"
  proof (induction objects)
    case Nil
    show ?case by simp
  next
    case (Cons x xs)
    then show ?case by (cases x) (simp_all add: decodeListItem_def)
  qed
  then show ?thesis by (simp add: DecodeList_def)
qed

section \<open>EncodeList, one position at a time\<close>

text \<open>
  C3, as amended. For every collection and encoder: a position whose object encodes to
  \<open>data\<close> holds the envelope \<^verbatim>\<open>Unknown{Raw: data}\<close> afterwards; a position whose object
  fails to encode keeps its value; the errors are the encoder's own errors, as returned,
  one for each failing position, in the order of the positions, with nothing added that
  names the position or the object. \<^verbatim>\<open>EncodeList\<close> returns no error when no position
  failed, and the aggregate of these errors otherwise.
\<close>

theorem EncodeList_positions:
  "(i < length objects \<and> Encode e (objects ! i) ov = Inr data \<longrightarrow>
      fst (EncodeList e objects ov) ! i = Envelope (Unknown_Raw data)) \<and>
   (i < length objects \<and> Encode e (objects ! i) ov = Inl err \<longrightarrow>
      fst (EncodeList e objects ov) ! i = objects ! i) \<and>
   snd (EncodeList e objects ov) =
      NewAggregate
        (concat (map (\<lambda>obj. case Encode e obj ov of Inl err \<Rightarrow> [err] | Inr data \<Rightarrow> []) objects)) \<and>
   ((\<forall>obj\<in>set objects. \<exists>data. Encode e obj ov = Inr data) \<longrightarrow>
      snd (EncodeList e objects ov) = None) \<and>
   ((\<exists>obj\<in>set objects. \<exists>err. Encode e obj ov = Inl err) \<longrightarrow>
      snd (EncodeList e objects ov) =
        Some (Aggregate
          (concat (map (\<lambda>obj. case Encode e obj ov of Inl err \<Rightarrow> [err] | Inr data \<Rightarrow> []) objects))))"
proof -
  let ?errs = "concat (map (\<lambda>obj. case Encode e obj ov of Inl err \<Rightarrow> [err] | Inr data \<Rightarrow> []) objects)"
  have ok: "fst (EncodeList e objects ov) ! i = Envelope (Unknown_Raw data)"
    if "i < length objects" and "Encode e (objects ! i) ov = Inr data"
    using EncodeList_range_nth [OF that(1), of e ov] that(2)
    by (simp add: EncodeList_fst EncodeList_range_single)
  have bad: "fst (EncodeList e objects ov) ! i = objects ! i"
    if "i < length objects" and "Encode e (objects ! i) ov = Inl err"
    using EncodeList_range_nth [OF that(1), of e ov] that(2)
    by (simp add: EncodeList_fst EncodeList_range_single)
  have agg: "snd (EncodeList e objects ov) = NewAggregate ?errs"
    by (simp only: EncodeList_snd EncodeList_range_errors)
  have none: "?errs = []" if "\<forall>obj\<in>set objects. \<exists>data. Encode e obj ov = Inr data"
    using that by auto
  have some: "?errs \<noteq> []" if "\<exists>obj\<in>set objects. \<exists>err. Encode e obj ov = Inl err"
  proof -
    from that obtain obj err where o: "obj \<in> set objects" "Encode e obj ov = Inl err"
      by blast
    then have "\<exists>x\<in>set objects.
        (case Encode e x ov of Inl err \<Rightarrow> [err] | Inr data \<Rightarrow> []) \<noteq> []"
      by (intro bexI [of _ obj]) simp_all
    then show ?thesis by simp
  qed
  show ?thesis
  proof (intro conjI impI)
    assume "i < length objects \<and> Encode e (objects ! i) ov = Inr data"
    then show "fst (EncodeList e objects ov) ! i = Envelope (Unknown_Raw data)"
      using ok by simp
  next
    assume "i < length objects \<and> Encode e (objects ! i) ov = Inl err"
    then show "fst (EncodeList e objects ov) ! i = objects ! i"
      using bad by simp
  next
    show "snd (EncodeList e objects ov) = NewAggregate ?errs"
      by (rule agg)
  next
    assume "\<forall>obj\<in>set objects. \<exists>data. Encode e obj ov = Inr data"
    then have "?errs = []" by (rule none)
    then show "snd (EncodeList e objects ov) = None"
      by (simp add: agg NewAggregate_def)
  next
    assume "\<exists>obj\<in>set objects. \<exists>err. Encode e obj ov = Inl err"
    then have "?errs \<noteq> []" by (rule some)
    then show "snd (EncodeList e objects ov) = Some (Aggregate ?errs)"
      by (simp add: agg NewAggregate_def)
  qed
qed

text \<open>
  Three objects of which the second cannot be encoded: the first and the third become
  envelopes, the second stays, and the aggregate has one entry. With no failure the
  returned error is nil.
\<close>

theorem EncodeList_positions_witness:
  "EncodeList enc_pod [Typed 0, Typed 1, Typed 0] [] =
     ([Envelope (Unknown_Raw ''pod''), Typed 1, Envelope (Unknown_Raw ''pod'')],
      Some (Aggregate [ErrorString ''encode failed''])) \<and>
   EncodeList enc_pod [Typed 0, Envelope (Unknown_Raw ''job'')] [] =
     ([Envelope (Unknown_Raw ''pod''), Envelope (Unknown_Raw ''job'')], None)"
proof -
  have a: "fst (EncodeList enc_pod [Typed 0, Typed 1, Typed 0] []) ! 0 = Envelope (Unknown_Raw ''pod'')"
    using EncodeList_positions [where i = 0 and objects = "[Typed 0, Typed 1, Typed 0]"
        and e = enc_pod and ov = "[]" and data = "''pod''"]
    by (simp add: enc_pod_def)
  have b: "fst (EncodeList enc_pod [Typed 0, Typed 1, Typed 0] []) ! 1 = Typed 1 \<and>
      snd (EncodeList enc_pod [Typed 0, Typed 1, Typed 0] []) =
        Some (Aggregate [ErrorString ''encode failed''])"
    using EncodeList_positions [where i = 1 and objects = "[Typed 0, Typed 1, Typed 0]"
        and e = enc_pod and ov = "[]" and err = "ErrorString ''encode failed''"]
    by (simp add: enc_pod_def NewAggregate_def)
  have c: "snd (EncodeList enc_pod [Typed 0, Envelope (Unknown_Raw ''job'')] []) = None"
    using EncodeList_positions [where i = 0 and objects = "[Typed 0, Envelope (Unknown_Raw ''job'')]"
        and e = enc_pod and ov = "[]" and data = "''pod''" and err = "ErrorString ''encode failed''"]
    by (simp add: enc_pod_def NewAggregate_def)
  have d: "fst (EncodeList enc_pod [Typed 0, Typed 1, Typed 0] []) =
      [Envelope (Unknown_Raw ''pod''), Typed 1, Envelope (Unknown_Raw ''pod'')]"
    by (simp add: EncodeList_def enc_pod_def)
  have e: "fst (EncodeList enc_pod [Typed 0, Envelope (Unknown_Raw ''job'')] []) =
      [Envelope (Unknown_Raw ''pod''), Envelope (Unknown_Raw ''job'')]"
    by (simp add: EncodeList_def enc_pod_def Unknown_Raw_def)
  show ?thesis using a b c d e by (simp add: prod_eq_iff)
qed

text \<open>
  C3 as stated says that a recorded error is tagged with its position or with a
  description of the failing object. It is not: a failure of object 1 at position 0 and a
  failure of object 2 at position 2 return the same aggregate.
\<close>

theorem EncodeList_error_untagged:
  "snd (EncodeList enc_pod [Typed 1, Typed 0] []) = Some (Aggregate [ErrorString ''encode failed'']) \<and>
   snd (EncodeList enc_pod [Typed 0, Typed 0, Typed 2] []) =
     Some (Aggregate [ErrorString ''encode failed''])"
  by (simp add: EncodeList_def NewAggregate_def enc_pod_def)

section \<open>Failures stay within their position\<close>

text \<open>
  C4. For every collection, \<^verbatim>\<open>EncodeList\<close> and \<^verbatim>\<open>DecodeList\<close> treat every position, once
  and in order, by what the encoder or the decoders answer for the object at that
  position alone: the collection after the call is the list of the per-position results
  (the envelope of the encoded bytes or the decoded object on success, the old value on
  failure), and the errors are the per-position errors in the order of the positions, put
  after the errors \<open>errs\<close> that were collected before. A failure at one position changes
  nothing at any other, and the errors are handed back only once every position has been
  treated (\<^verbatim>\<open>EncodeList\<close> through \<^verbatim>\<open>NewAggregate\<close>).
\<close>

theorem batch_positions_independent:
  "EncodeList_range e ov objects errs =
     (map (\<lambda>obj. case Encode e obj ov of Inl err \<Rightarrow> obj | Inr data \<Rightarrow> Envelope (Unknown_Raw data))
        objects,
      errs @ concat (map (\<lambda>obj. case Encode e obj ov of Inl err \<Rightarrow> [err] | Inr data \<Rightarrow> []) objects)) \<and>
   EncodeList e objects ov =
     (map (\<lambda>obj. case Encode e obj ov of Inl err \<Rightarrow> obj | Inr data \<Rightarrow> Envelope (Unknown_Raw data))
        objects,
      NewAggregate
        (concat (map (\<lambda>obj. case Encode e obj ov of Inl err \<Rightarrow> [err] | Inr data \<Rightarrow> []) objects))) \<and>
   DecodeList_range ds objects errs =
     (map (\<lambda>obj. case obj of
              Envelope t \<Rightarrow> (case decodeListItem t ds of Inl err \<Rightarrow> obj | Inr decoded \<Rightarrow> decoded)
            | Typed x \<Rightarrow> obj) objects,
      errs @ concat (map (\<lambda>obj. case obj of
              Envelope t \<Rightarrow> (case decodeListItem t ds of Inl err \<Rightarrow> [err] | Inr decoded \<Rightarrow> [])
            | Typed x \<Rightarrow> []) objects)) \<and>
   DecodeList objects ds =
     (map (\<lambda>obj. case obj of
              Envelope t \<Rightarrow> (case decodeListItem t ds of Inl err \<Rightarrow> obj | Inr decoded \<Rightarrow> decoded)
            | Typed x \<Rightarrow> obj) objects,
      concat (map (\<lambda>obj. case obj of
              Envelope t \<Rightarrow> (case decodeListItem t ds of Inl err \<Rightarrow> [err] | Inr decoded \<Rightarrow> [])
            | Typed x \<Rightarrow> []) objects))"
proof (intro conjI)
  show "EncodeList_range e ov objects errs =
     (map (\<lambda>obj. case Encode e obj ov of Inl err \<Rightarrow> obj | Inr data \<Rightarrow> Envelope (Unknown_Raw data))
        objects,
      errs @ concat (map (\<lambda>obj. case Encode e obj ov of Inl err \<Rightarrow> [err] | Inr data \<Rightarrow> []) objects))"
    by (rule EncodeList_range_map)
next
  show "EncodeList e objects ov =
     (map (\<lambda>obj. case Encode e obj ov of Inl err \<Rightarrow> obj | Inr data \<Rightarrow> Envelope (Unknown_Raw data))
        objects,
      NewAggregate
        (concat (map (\<lambda>obj. case Encode e obj ov of Inl err \<Rightarrow> [err] | Inr data \<Rightarrow> []) objects)))"
    using EncodeList_range_map [of e ov objects "[]"] by (simp add: EncodeList_def)
next
  show "DecodeList_range ds objects errs =
     (map (\<lambda>obj. case obj of
              Envelope t \<Rightarrow> (case decodeListItem t ds of Inl err \<Rightarrow> obj | Inr decoded \<Rightarrow> decoded)
            | Typed x \<Rightarrow> obj) objects,
      errs @ concat (map (\<lambda>obj. case obj of
              Envelope t \<Rightarrow> (case decodeListItem t ds of Inl err \<Rightarrow> [err] | Inr decoded \<Rightarrow> [])
            | Typed x \<Rightarrow> []) objects))"
    by (rule DecodeList_range_map)
next
  show "DecodeList objects ds =
     (map (\<lambda>obj. case obj of
              Envelope t \<Rightarrow> (case decodeListItem t ds of Inl err \<Rightarrow> obj | Inr decoded \<Rightarrow> decoded)
            | Typed x \<Rightarrow> obj) objects,
      concat (map (\<lambda>obj. case obj of
              Envelope t \<Rightarrow> (case decodeListItem t ds of Inl err \<Rightarrow> [err] | Inr decoded \<Rightarrow> [])
            | Typed x \<Rightarrow> []) objects))"
    using DecodeList_range_map [of ds objects "[]"] by (simp add: DecodeList_def)
qed

text \<open>
  Two failures do not keep the positions after them from being encoded or decoded, and
  both are reported, in order.
\<close>

theorem batch_positions_independent_witness:
  "EncodeList enc_pod [Typed 1, Typed 0, Typed 2, Typed 0] [] =
     ([Typed 1, Envelope (Unknown_Raw ''pod''), Typed 2, Envelope (Unknown_Raw ''pod'')],
      Some (Aggregate [ErrorString ''encode failed'', ErrorString ''encode failed''])) \<and>
   DecodeList
     [Envelope (Unknown_Raw ''x''), Envelope (Unknown_Raw ''pod''), Typed 7,
      Envelope (Unknown_Raw ''y''), Envelope (Unknown_Raw ''pod'')]
     [dec_none, dec_picky] =
     ([Envelope (Unknown_Raw ''x''), Typed 0, Typed 7, Envelope (Unknown_Raw ''y''), Typed 0],
      [ErrorString ''malformed'', ErrorString ''malformed''])"
proof -
  have a: "EncodeList enc_pod [Typed 1, Typed 0, Typed 2, Typed 0] [] =
     ([Typed 1, Envelope (Unknown_Raw ''pod''), Typed 2, Envelope (Unknown_Raw ''pod'')],
      Some (Aggregate [ErrorString ''encode failed'', ErrorString ''encode failed'']))"
    using batch_positions_independent [where e = enc_pod and ov = "[]"
        and objects = "[Typed 1, Typed 0, Typed 2, Typed 0]" and errs = "[]" and ds = "[]"]
    by (simp add: enc_pod_def NewAggregate_def)
  have b: "DecodeList
     [Envelope (Unknown_Raw ''x''), Envelope (Unknown_Raw ''pod''), Typed 7,
      Envelope (Unknown_Raw ''y''), Envelope (Unknown_Raw ''pod'')]
     [dec_none, dec_picky] =
     ([Envelope (Unknown_Raw ''x''), Typed 0, Typed 7, Envelope (Unknown_Raw ''y''), Typed 0],
      [ErrorString ''malformed'', ErrorString ''malformed''])"
    using batch_positions_independent [where e = enc_pod and ov = "[]" and errs = "[]"
        and ds = "[dec_none, dec_picky]"
        and objects = "[Envelope (Unknown_Raw ''x''), Envelope (Unknown_Raw ''pod''), Typed 7,
          Envelope (Unknown_Raw ''y''), Envelope (Unknown_Raw ''pod'')]"]
    by (simp add: decodeListItem_def dec_none_def dec_picky_def Unknown_Raw_def)
  show ?thesis using a b by simp
qed

text \<open>
  C5. \<^verbatim>\<open>EncodeList\<close> and \<^verbatim>\<open>DecodeList\<close> keep the length of the collection, and the value
  at position \<open>i\<close> afterwards is the result of processing the value at position \<open>i\<close>:
  nothing is inserted, removed or moved. A position of \<^verbatim>\<open>DecodeList\<close> that holds no
  envelope keeps its value, and the errors returned are those of the positions before it
  followed by those of the positions after it, with none for the position itself.
\<close>

theorem lists_keep_length_and_order:
  "length (fst (EncodeList e objects ov)) = length objects \<and>
   length (fst (DecodeList objects ds)) = length objects \<and>
   (i < length objects \<longrightarrow>
      [fst (EncodeList e objects ov) ! i] = fst (EncodeList e [objects ! i] ov) \<and>
      [fst (DecodeList objects ds) ! i] = fst (DecodeList [objects ! i] ds)) \<and>
   (i < length objects \<and> objects ! i = Typed x \<longrightarrow>
      fst (DecodeList objects ds) ! i = Typed x \<and>
      snd (DecodeList objects ds) =
        snd (DecodeList (take i objects) ds) @ snd (DecodeList (drop (Suc i) objects) ds))"
proof -
  have l1: "length (fst (EncodeList e objects ov)) = length objects"
    by (simp add: EncodeList_fst EncodeList_range_length)
  have l2: "length (fst (DecodeList objects ds)) = length objects"
    by (rule DecodeList_length)
  have n1: "[fst (EncodeList e objects ov) ! i] = fst (EncodeList e [objects ! i] ov)"
    if "i < length objects"
    using EncodeList_range_nth [OF that, of e ov] by (simp add: EncodeList_fst)
  have n2: "[fst (DecodeList objects ds) ! i] = fst (DecodeList [objects ! i] ds)"
    if "i < length objects"
    using that by (rule DecodeList_nth)
  have t: "DecodeList [Typed x] ds = ([Typed x], [])"
    by (simp add: DecodeList_def)
  have u1: "fst (DecodeList objects ds) ! i = Typed x"
    if "i < length objects" and "objects ! i = Typed x"
    using n2 [OF that(1)] that(2) t by simp
  have u2: "snd (DecodeList objects ds) =
        snd (DecodeList (take i objects) ds) @ snd (DecodeList (drop (Suc i) objects) ds)"
    if "i < length objects" and "objects ! i = Typed x"
    using DecodeList_split [OF that(1), of ds] that(2) t by simp
  show ?thesis using l1 l2 n1 n2 u1 u2 by blast
qed

text \<open>
  A collection of three keeps three positions; the object between two envelopes that
  fail to decode is untouched and contributes no error.
\<close>

theorem lists_keep_length_and_order_witness:
  "length (fst (EncodeList enc_pod [Typed 0, Typed 1, Typed 0] [])) = 3 \<and>
   length (fst (DecodeList [Envelope (Unknown_Raw ''pod''), Typed 7, Envelope (Unknown_Raw ''x'')]
      [dec_strict, dec_pod])) = 3 \<and>
   fst (DecodeList [Envelope (Unknown_Raw ''pod''), Typed 7, Envelope (Unknown_Raw ''x'')]
      [dec_strict, dec_pod]) ! 1 = Typed 7 \<and>
   snd (DecodeList [Envelope (Unknown_Raw ''pod''), Typed 7, Envelope (Unknown_Raw ''x'')]
      [dec_strict, dec_pod]) = [ErrorString ''malformed'', ErrorString ''malformed'']"
proof -
  have a: "length (fst (EncodeList enc_pod [Typed 0, Typed 1, Typed 0] [])) = 3"
    using lists_keep_length_and_order [where objects = "[Typed 0, Typed 1, Typed 0]"
        and e = enc_pod and ov = "[]"]
    by simp
  have b: "length (fst (DecodeList [Envelope (Unknown_Raw ''pod''), Typed 7, Envelope (Unknown_Raw ''x'')]
      [dec_strict, dec_pod])) = 3 \<and>
   fst (DecodeList [Envelope (Unknown_Raw ''pod''), Typed 7, Envelope (Unknown_Raw ''x'')]
      [dec_strict, dec_pod]) ! 1 = Typed 7 \<and>
   snd (DecodeList [Envelope (Unknown_Raw ''pod''), Typed 7, Envelope (Unknown_Raw ''x'')]
      [dec_strict, dec_pod]) = [ErrorString ''malformed'', ErrorString ''malformed'']"
    using lists_keep_length_and_order [where i = 1 and x = 7 and ds = "[dec_strict, dec_pod]"
        and objects = "[Envelope (Unknown_Raw ''pod''), Typed 7, Envelope (Unknown_Raw ''x'')]"]
    by (simp add: DecodeList_def decodeListItem_def dec_strict_def Unknown_Raw_def)
  show ?thesis using a b by simp
qed

end
